theory Spec2Isabelle
  imports Complex_Main "HOL-Library.Word"
begin

section \<open>JavaScript strings\<close>

text \<open>
  A JavaScript string is a sequence of UTF-16 code units, and \<open>s.length\<close> counts code
  units. The sentinel character of the program (U+25B2) and the line separators U+2028
  and U+2029 are single code units above the byte range, so a code unit is a 16-bit word.
  The program's ASCII literals are written as Isabelle strings and injected by \<open>ascii\<close>.
\<close>

type_synonym code_unit = "16 word"
type_synonym js_string = "code_unit list"

definition ascii :: "string \<Rightarrow> js_string" where
  "ascii cs = map (\<lambda>c. of_nat (of_char c)) cs"

section \<open>The regular expression of \<open>decodeBase64Image\<close>\<close>

text \<open>
  The fragment of ECMAScript regular expressions that the program uses: literal
  characters, a greedy \<open>+\<close> over a character class, capture groups, and sequencing.
  \<open>backtrack r s\<close> lists, in the priority order of the backtracking matcher (a greedy
  \<open>+\<close> tries the longest run first), every way \<open>r\<close> matches a prefix of \<open>s\<close>: the
  captures of the groups in order, the matched text, and the rest of the input.
\<close>

datatype regex =
    Lit js_string
  | OneOrMore "code_unit \<Rightarrow> bool"
  | Group regex
  | Seq regex regex

fun backtrack :: "regex \<Rightarrow> js_string \<Rightarrow> (js_string list \<times> js_string \<times> js_string) list" where
  "backtrack (Lit l) s =
     (if take (length l) s = l then [([], l, drop (length l) s)] else [])"
| "backtrack (OneOrMore P) s =
     map (\<lambda>n. ([], take n s, drop n s)) (rev [1..<Suc (length (takeWhile P s))])"
| "backtrack (Group r) s =
     map (\<lambda>(caps, m, rest). (m # caps, m, rest)) (backtrack r s)"
| "backtrack (Seq a b) s =
     concat (map (\<lambda>(ca, ma, ra).
                map (\<lambda>(cb, mb, rb). (ca @ cb, ma @ mb, rb)) (backtrack b ra))
             (backtrack a s))"

text \<open>
  \<open>s.match(/^r$/)\<close> for a pattern without flags: \<open>^\<close> holds only at index 0 and \<open>$\<close>
  only at the end of the input, so the result is the first alternative of the matcher
  that consumes the whole string, as the array of the whole match followed by the
  captures, or \<open>null\<close> (\<open>None\<close>).
\<close>

definition match_anchored :: "regex \<Rightarrow> js_string \<Rightarrow> js_string list option" where
  "match_anchored r s =
     map_option (\<lambda>(caps, m, rest). m # caps)
       (find (\<lambda>(caps, m, rest). rest = []) (backtrack r s))"

text \<open>\<open>a?.[i]\<close>: \<open>undefined\<close> for \<open>null\<close> and for an index outside the array.\<close>

definition opt_index :: "'a list option \<Rightarrow> nat \<Rightarrow> 'a option" where
  "opt_index a i =
     (case a of None \<Rightarrow> None | Some xs \<Rightarrow> if i < length xs then Some (xs ! i) else None)"

text \<open>The class \<open>[A-Za-z-+\/]\<close>: the two ranges and the three literals \<open>-\<close>, \<open>+\<close>, \<open>/\<close>.\<close>

definition mime_class :: "code_unit \<Rightarrow> bool" where
  "mime_class c \<longleftrightarrow>
     (0x41 \<le> c \<and> c \<le> 0x5A) \<or> (0x61 \<le> c \<and> c \<le> 0x7A) \<or> c = 0x2D \<or> c = 0x2B \<or> c = 0x2F"

text \<open>
  \<open>.\<close> without the \<open>s\<close> flag: any code unit except the line terminators
  LF, CR, U+2028 and U+2029.
\<close>

definition dot :: "code_unit \<Rightarrow> bool" where
  "dot c \<longleftrightarrow> c \<noteq> 0x0A \<and> c \<noteq> 0x0D \<and> c \<noteq> 0x2028 \<and> c \<noteq> 0x2029"

text \<open>\<open>/^data:([A-Za-z-+\/]+);base64,(.+)$/\<close>\<close>

definition data_uri_regex :: regex where
  "data_uri_regex =
     Seq (Lit (ascii ''data:''))
       (Seq (Group (OneOrMore mime_class))
         (Seq (Lit (ascii '';base64,''))
           (Group (OneOrMore dot))))"

definition decodeBase64Image :: "js_string \<Rightarrow> js_string option \<times> js_string option" where
  "decodeBase64Image dataString =
     (let matches = match_anchored data_uri_regex dataString
      in (opt_index matches 1, opt_index matches 2))"

section \<open>The relay endpoint\<close>

text \<open>
  Modelled from the spec: \<open>isSupportedImageType\<close> is imported from \<open>@/app/utils\<close>, which
  is not among the sources. The spec gives the supported set as
  \<open>{image/jpeg, image/png, image/gif, image/webp}\<close>; the file input's \<open>accept\<close> attribute
  and both error messages of the sources list the same four formats.
\<close>

definition isSupportedImageType :: "js_string \<Rightarrow> bool" where
  "isSupportedImageType t \<longleftrightarrow>
     t \<in> set (map ascii [''image/jpeg'', ''image/png'', ''image/gif'', ''image/webp''])"

definition newline :: string where
  "newline = [CHR 0x0A]"

definition prompt_task :: string where
  "prompt_task = concat
    [newline,
     ''  You are given an image of a handwritten answer of a middle school algebra question from a middle school student. '', newline,
     ''  In the answer there is some irrelevant words that could be in any language or some deleted expressions. '', newline,
     newline,
     ''  Please do the following: '', newline,
     ''  1. Recognize the original problem and the type of the problem. '', newline,
     ''  2. Recognize the expressions in each step and its correctness. '', newline,
     ''  3. Justify if the final answer is correct. '', newline,
     ''  4. Generate a rubrics with 5 total points for this question. '', newline,
     ''  5. Justify how many points will you award each item in the rubrics and calculate the final score.'', newline]"

text \<open>The sentinel character U+25B2 (BLACK UP-POINTING TRIANGLE): one code unit.\<close>

definition sentinel :: code_unit where
  "sentinel = 0x25B2"

datatype part = TextPart js_string | ImagePart js_string js_string

datatype role = User | Assistant

record message =
  role :: role
  content :: "part list"

record model_call =
  messages :: "message list"
  model :: string

text \<open>
  A response is either built by the handler from a body and a status, or is the
  library's \<open>StreamingTextResponse\<close> around a stream, a text response with status
  200 whose body is that stream's chunks in order.
\<close>

datatype response =
    Response string nat
  | StreamingTextResponse "js_string list"


datatype upstream_error = UpstreamError

text \<open>
  \<open>POST\<close>, for a request whose \<open>prompt\<close> is a string. The hosted model and the \<open>ai\<close>
  library are outside the program and are parameters: \<open>streamText\<close> maps the call to
  its result object, or to the failure with which the awaited call rejects, and
  \<open>toAIStream\<close> gives the chunks of the stream that \<open>result.toAIStream()\<close> yields,
  whatever encoding of the model's output the library chooses for it.
  The result is the handler's outcome (a response, or the failure it lets through) and
  the list of calls made to the model.
\<close>

definition POST ::
  "(model_call \<Rightarrow> upstream_error + 'r) \<Rightarrow> ('r \<Rightarrow> js_string list) \<Rightarrow> js_string
     \<Rightarrow> (upstream_error + response) \<times> model_call list" where
  "POST streamText toAIStream prompt =
     (if length prompt > 6464471
      then (Inr (Response ''Image too large, maximum file size is 4.5MB.'' 400), [])
      else
        (case decodeBase64Image prompt of
           (Some mimeType, Some img) \<Rightarrow>
             \<comment> \<open>\<open>img\<close> is the source's \<open>image\<close>; \<open>!x\<close> holds of \<open>undefined\<close> and of the empty string\<close>
             if mimeType = [] \<or> img = []
             then (Inr (Response ''Invalid image data'' 400), [])
             else if \<not> isSupportedImageType mimeType
             then (Inr (Response
               ''Unsupported format. Only JPEG, PNG, GIF, and WEBP files are supported.'' 400), [])
             else
               (let call = \<lparr>messages =
                              [\<lparr>role = User,
                                content = [TextPart (ascii prompt_task), ImagePart img mimeType]\<rparr>,
                               \<lparr>role = Assistant, content = [TextPart [sentinel]]\<rparr>],
                            model = ''models/gemini-1.5-pro-latest''\<rparr>
                in case streamText call of
                     Inl e \<Rightarrow> (Inl e, [call])
                   | Inr result \<Rightarrow> (Inr (StreamingTextResponse (toAIStream result)), [call]))
         | _ \<Rightarrow> (Inr (Response ''Invalid image data'' 400), [])))"

section \<open>The client\<close>

subsection \<open>Splitting the completion\<close>

text \<open>
  \<open>s.split(sep)\<close> for a separator of one code unit: the text before the first
  occurrence, then the split of what follows it; a string without the separator is the
  only segment (so the empty string splits into one empty segment).
\<close>

function split :: "code_unit \<Rightarrow> js_string \<Rightarrow> js_string list" where
  "split sep s =
     (case dropWhile (\<lambda>c. c \<noteq> sep) s of
        [] \<Rightarrow> [s]
      | _ # rest \<Rightarrow> takeWhile (\<lambda>c. c \<noteq> sep) s # split sep rest)"
  by pat_completeness auto
termination
proof (relation "measure (\<lambda>(sep, s). length s)")
  show "wf (measure (\<lambda>(sep, s). length s))" by simp
next
  fix sep :: code_unit and s x rest
  assume "dropWhile (\<lambda>c. c \<noteq> sep) s = x # rest"
  then have "length (x # rest) \<le> length s"
    by (metis length_dropWhile_le)
  then show "((sep, rest), (sep, s)) \<in> measure (\<lambda>(sep, s). length s)"
    by simp
qed

declare split.simps [simp del]

text \<open>\<open>a[i]\<close> read by destructuring: \<open>undefined\<close> outside the array.\<close>

definition index :: "'a list \<Rightarrow> nat \<Rightarrow> 'a option" where
  "index xs i = (if i < length xs then Some (xs ! i) else None)"

text \<open>\<open>const [description, text] = completion.split(sentinel)\<close>\<close>

definition displayed :: "js_string \<Rightarrow> js_string option \<times> js_string option" where
  "displayed completion =
     (let segments = split sentinel completion in (index segments 0, index segments 1))"

subsection \<open>Submitting a file\<close>

text \<open>The \<open>File | Blob\<close> argument, by the two properties the program reads.\<close>

record file_blob =
  file_type :: js_string
  file_size :: nat

datatype 'a promise = Resolved 'a | Rejected | Pending

text \<open>
  The browser is outside the program: what the \<open>FileReader\<close> delivers for a file (a
  load whose result is a string or not, or an error) and the URL that
  \<open>URL.createObjectURL\<close> makes are parameters.
\<close>

datatype reader_event = Loaded "js_string option" | Errored

record browser =
  readAsDataURL :: "file_blob \<Rightarrow> reader_event"
  createObjectURL :: "file_blob \<Rightarrow> js_string"

text \<open>
  \<open>toBase64\<close>: resolves with the reader's result when it is a string, never settles
  when it is not, rejects on a reader error.
\<close>

definition toBase64 :: "browser \<Rightarrow> file_blob \<Rightarrow> js_string promise" where
  "toBase64 env f =
     (case readAsDataURL env f of
        Loaded (Some result) \<Rightarrow> Resolved result
      | Loaded None \<Rightarrow> Pending
      | Errored \<Rightarrow> Rejected)"

text \<open>
  The component's state, with the two effects of \<open>submit\<close> recorded in it: \<open>toasts\<close>
  are the messages given to \<open>toast.error\<close>, \<open>requests\<close> the prompts given to
  \<open>complete\<close>, each of which sends one request to the relay.
\<close>

record home =
  isDraggingOver :: bool
  blobURL :: "js_string option"
  finished :: bool
  toasts :: "string list"
  requests :: "js_string list"

text \<open>
  \<open>file.size\<close> is a whole number of bytes and \<open>4.5 * 1024 * 1024\<close> is the integer
  4718592, both exact in double arithmetic, so the comparison is the one on the reals.
\<close>

definition toast_error :: "string \<Rightarrow> home \<Rightarrow> home" where
  "toast_error msg st = st\<lparr>toasts := toasts st @ [msg]\<rparr>"

definition submit :: "browser \<Rightarrow> file_blob option \<Rightarrow> home \<Rightarrow> unit promise \<times> home" where
  "submit env file st =
     (case file of
        None \<Rightarrow> (Resolved (), st)
      | Some f \<Rightarrow>
          if \<not> isSupportedImageType (file_type f)
          then (Resolved (), toast_error
            ''Unsupported format. Only JPEG, PNG, GIF, and WEBP files are supported.'' st)
          else if real (file_size f) > 4.5 * 1024 * 1024
          then (Resolved (), toast_error ''Image too large, maximum file size is 4.5MB.'' st)
          else
            (case toBase64 env f of
               Rejected \<Rightarrow> (Rejected, st)
             | Pending \<Rightarrow> (Pending, st)
             | Resolved base64 \<Rightarrow>
                 if length base64 > 6464471
                 then (Resolved (),
                   toast_error ''Image too large, maximum file size is 4.5MB.'' st)
                 else (Resolved (),
                   st\<lparr>blobURL := Some (createObjectURL env f), finished := False,
                      requests := requests st @ [base64]\<rparr>)))"

text \<open>
  The event handlers read the first file of the event, \<open>e.clipboardData?.files?.[0]\<close>
  and alike, which is \<open>undefined\<close> when the event has no file list or an empty one,
  and pass it to \<open>submit\<close>.
\<close>

definition first_file :: "file_blob list option \<Rightarrow> file_blob option" where
  "first_file files = opt_index files 0"

definition handlePaste :: "browser \<Rightarrow> file_blob list option \<Rightarrow> home \<Rightarrow> unit promise \<times> home" where
  "handlePaste env files st = submit env (first_file files) st"

definition handleDrop :: "browser \<Rightarrow> file_blob list option \<Rightarrow> home \<Rightarrow> unit promise \<times> home" where
  "handleDrop env files st = submit env (first_file files) (st\<lparr>isDraggingOver := False\<rparr>)"

definition handleInputChange ::
  "browser \<Rightarrow> file_blob list option \<Rightarrow> home \<Rightarrow> unit promise \<times> home" where
  "handleInputChange env files st = submit env (first_file files) st"

section \<open>What the regular expression means\<close>

text \<open>
  The declarative reading of the pattern language, against which the backtracking
  matcher is checked: \<open>matches r caps m\<close> holds when \<open>r\<close> matches exactly the text \<open>m\<close>
  with the captures \<open>caps\<close>.
\<close>

inductive matches :: "regex \<Rightarrow> js_string list \<Rightarrow> js_string \<Rightarrow> bool" where
  m_Lit: "matches (Lit l) [] l"
| m_Plus: "m \<noteq> [] \<Longrightarrow> \<forall>c\<in>set m. P c \<Longrightarrow> matches (OneOrMore P) [] m"
| m_Group: "matches r caps m \<Longrightarrow> matches (Group r) (m # caps) m"
| m_Seq: "matches a ca ma \<Longrightarrow> matches b cb mb \<Longrightarrow> matches (Seq a b) (ca @ cb) (ma @ mb)"

text \<open>
  The strings the data-URI pattern describes: \<open>data:\<close>, a non-empty MIME type over the
  class, \<open>;base64,\<close>, and a non-empty payload without line terminators.
\<close>

definition data_uri_shape :: "js_string \<Rightarrow> js_string \<Rightarrow> js_string \<Rightarrow> bool" where
  "data_uri_shape s m p \<longleftrightarrow>
     s = ascii ''data:'' @ m @ ascii '';base64,'' @ p \<and>
     m \<noteq> [] \<and> list_all mime_class m \<and> p \<noteq> [] \<and> list_all dot p"

section \<open>Example inputs\<close>

text \<open>Files, a browser and a component state at which the theorems are instantiated.\<close>

definition bmp_file :: file_blob where
  "bmp_file = \<lparr>file_type = ascii ''image/bmp'', file_size = 1000\<rparr>"

definition big_png :: file_blob where
  "big_png = \<lparr>file_type = ascii ''image/png'', file_size = 5000000\<rparr>"

definition small_png :: file_blob where
  "small_png = \<lparr>file_type = ascii ''image/png'', file_size = 1000\<rparr>"

definition long_reader :: browser where
  "long_reader = \<lparr>readAsDataURL = (\<lambda>f. Loaded (Some (replicate 6464472 0x41))),
                   createObjectURL = (\<lambda>f. ascii ''blob:1'')\<rparr>"

definition silent_model :: "model_call \<Rightarrow> upstream_error + js_string list" where
  "silent_model call = Inr []"



text \<open>A stream that frames every piece of the result, as one possible \<open>toAIStream\<close>.\<close>

definition tagged_stream :: "js_string list \<Rightarrow> js_string list" where
  "tagged_stream result = map (\<lambda>t. ascii ''0:'' @ t) result"

definition idle :: home where
  "idle = \<lparr>isDraggingOver = False, blobURL = None, finished = False, toasts = [],
            requests = []\<rparr>"


section \<open>The matcher finds exactly the data-URIs\<close>

inductive_simps matches_Lit: "matches (Lit l) caps m"
inductive_simps matches_Plus: "matches (OneOrMore P) caps m"
inductive_simps matches_Group: "matches (Group r) caps m"
inductive_simps matches_Seq: "matches (Seq a b) caps m"

lemma take_le_takeWhile:
  "take n s = m \<Longrightarrow> n \<le> length s \<Longrightarrow> (n \<le> length (takeWhile P s)) = (\<forall>c\<in>set m. P c)"
proof (induction s arbitrary: n m)
  case Nil then show ?case by simp
next
  case (Cons x xs)
  then show ?case by (cases n) auto
qed

lemma backtrack_plus:
  "((caps, m, rest) \<in> set (backtrack (OneOrMore P) s)) =
     (caps = [] \<and> s = m @ rest \<and> m \<noteq> [] \<and> (\<forall>c\<in>set m. P c))"
proof
  assume "(caps, m, rest) \<in> set (backtrack (OneOrMore P) s)"
  then obtain n where n: "1 \<le> n" "n \<le> length (takeWhile P s)" "caps = []" "m = take n s" "rest = drop n s"
    by auto
  have "length (takeWhile P s) \<le> length s" by (rule length_takeWhile_le)
  with n have "n \<le> length s" by simp
  with n take_le_takeWhile[of n s m P] show "caps = [] \<and> s = m @ rest \<and> m \<noteq> [] \<and> (\<forall>c\<in>set m. P c)"
    by auto
next
  assume a: "caps = [] \<and> s = m @ rest \<and> m \<noteq> [] \<and> (\<forall>c\<in>set m. P c)"
  then have "take (length m) s = m" "length m \<le> length s" by auto
  with take_le_takeWhile[of "length m" s m P] a have "length m \<le> length (takeWhile P s)" by simp
  moreover from a have "1 \<le> length m" by (cases m) auto
  ultimately have "length m \<in> set (rev [1..<Suc (length (takeWhile P s))])" by auto
  moreover from a have "(caps, m, rest) = ([], take (length m) s, drop (length m) s)" by simp
  ultimately show "(caps, m, rest) \<in> set (backtrack (OneOrMore P) s)"
    unfolding backtrack.simps set_map by (rule image_eqI[rotated])
qed

lemma backtrack_iff:
  "((caps, m, rest) \<in> set (backtrack r s)) = (s = m @ rest \<and> matches r caps m)"
proof (induction r arbitrary: caps m rest s)
  case (Lit l)
  show ?case by (auto simp: matches_Lit) (metis append_take_drop_id)
next
  case (OneOrMore P)
  show ?case by (simp only: backtrack_plus matches_Plus) auto
next
  case (Group r)
  have "((caps, m, rest) \<in> set (backtrack (Group r) s)) =
        (\<exists>c. caps = m # c \<and> (c, m, rest) \<in> set (backtrack r s))"
    by (force simp: image_iff)
  with Group show ?case by (auto simp: matches_Group)
next
  case (Seq a b)
  let ?f = "\<lambda>(ca, ma, ra). map (\<lambda>(cb, mb, rb). (ca @ cb, ma @ mb, rb)) (backtrack b ra)"
  have "((caps, m, rest) \<in> set (backtrack (Seq a b) s)) =
        (\<exists>ca ma ra cb mb. (ca, ma, ra) \<in> set (backtrack a s) \<and>
           (cb, mb, rest) \<in> set (backtrack b ra) \<and> caps = ca @ cb \<and> m = ma @ mb)"
  proof
    assume "(caps, m, rest) \<in> set (backtrack (Seq a b) s)"
    then obtain x y where xy: "x \<in> set (backtrack a s)"
      "y \<in> set (backtrack b (snd (snd x)))"
      "(caps, m, rest) = (fst x @ fst y, fst (snd x) @ fst (snd y), snd (snd y))"
      by (auto simp: case_prod_beta)
    obtain ca ma ra where x: "x = (ca, ma, ra)" by (cases x)
    obtain cb mb rb where y: "y = (cb, mb, rb)" by (cases y)
    from xy have "(ca, ma, ra) \<in> set (backtrack a s)" "(cb, mb, rest) \<in> set (backtrack b ra)"
      "caps = ca @ cb" "m = ma @ mb"
      unfolding x y by simp_all
    then show "\<exists>ca ma ra cb mb. (ca, ma, ra) \<in> set (backtrack a s) \<and>
           (cb, mb, rest) \<in> set (backtrack b ra) \<and> caps = ca @ cb \<and> m = ma @ mb"
      by blast
  next
    assume "\<exists>ca ma ra cb mb. (ca, ma, ra) \<in> set (backtrack a s) \<and>
           (cb, mb, rest) \<in> set (backtrack b ra) \<and> caps = ca @ cb \<and> m = ma @ mb"
    then obtain ca ma ra cb mb where h: "(ca, ma, ra) \<in> set (backtrack a s)"
      "(cb, mb, rest) \<in> set (backtrack b ra)" "caps = ca @ cb" "m = ma @ mb" by blast
    from h(2) have "(caps, m, rest) \<in> (\<lambda>(cb, mb, rb). (ca @ cb, ma @ mb, rb)) ` set (backtrack b ra)"
      unfolding h(3,4) by (rule image_eqI[rotated]) simp
    then have 2: "(caps, m, rest) \<in> set (?f (ca, ma, ra))"
      by simp
    have 1: "?f (ca, ma, ra) \<in> ?f ` set (backtrack a s)"
      using h(1) by (rule imageI)
    from 1 2 have "(caps, m, rest) \<in> \<Union> (set ` ?f ` set (backtrack a s))"
      by (rule UN_I)
    then show "(caps, m, rest) \<in> set (backtrack (Seq a b) s)"
      by (simp only: backtrack.simps set_concat set_map)
  qed
  also have "\<dots> = (\<exists>ca ma ra cb mb. (s = ma @ ra \<and> matches a ca ma) \<and>
           (ra = mb @ rest \<and> matches b cb mb) \<and> caps = ca @ cb \<and> m = ma @ mb)"
    by (simp only: Seq.IH)
  also have "\<dots> = (s = m @ rest \<and> matches (Seq a b) caps m)"
    by (auto simp: matches_Seq) blast
  finally show ?case .
qed


lemma matches_data_uri:
  "matches data_uri_regex caps s = (\<exists>m p. caps = [m, p] \<and> data_uri_shape s m p)"
proof
  assume "matches data_uri_regex caps s"
  then show "\<exists>m p. caps = [m, p] \<and> data_uri_shape s m p"
    by (auto simp: data_uri_regex_def matches_Seq matches_Lit matches_Group matches_Plus
          data_uri_shape_def list_all_iff)
next
  assume "\<exists>m p. caps = [m, p] \<and> data_uri_shape s m p"
  then obtain m p where caps: "caps = [m, p]"
    and s: "s = ascii ''data:'' @ m @ ascii '';base64,'' @ p"
    and m: "m \<noteq> []" "\<forall>c\<in>set m. mime_class c" and p: "p \<noteq> []" "\<forall>c\<in>set p. dot c"
    by (auto simp: data_uri_shape_def list_all_iff)
  have "matches (Group (OneOrMore dot)) [p] p"
    using p by (intro m_Group m_Plus)
  with m_Lit have "matches (Seq (Lit (ascii '';base64,'')) (Group (OneOrMore dot)))
      ([] @ [p]) (ascii '';base64,'' @ p)"
    by (rule m_Seq)
  moreover have "matches (Group (OneOrMore mime_class)) [m] m"
    using m by (intro m_Group m_Plus)
  ultimately have "matches (Seq (Group (OneOrMore mime_class))
      (Seq (Lit (ascii '';base64,'')) (Group (OneOrMore dot))))
      ([m] @ [] @ [p]) (m @ ascii '';base64,'' @ p)"
    by (rule m_Seq[rotated])
  with m_Lit have "matches data_uri_regex ([] @ [m] @ [] @ [p])
      (ascii ''data:'' @ m @ ascii '';base64,'' @ p)"
    unfolding data_uri_regex_def by (rule m_Seq)
  then show "matches data_uri_regex caps s"
    by (simp add: caps s)
qed

lemma semicolon_not_mime: "\<not> mime_class 0x3B"
  by (simp add: mime_class_def)

lemma ascii_base64: "ascii '';base64,'' = 0x3B # ascii ''base64,''"
  by (simp add: ascii_def)

lemma shape_mime:
  assumes "data_uri_shape s m p"
  shows "m = takeWhile mime_class (drop 5 s)"
proof -
  from assms have s: "s = ascii ''data:'' @ m @ ascii '';base64,'' @ p"
    and m: "list_all mime_class m" by (simp_all add: data_uri_shape_def)
  have "drop 5 s = m @ 0x3B # ascii ''base64,'' @ p"
    by (subst s) (simp add: ascii_def)
  moreover from m have "takeWhile mime_class (m @ 0x3B # ascii ''base64,'' @ p) = m"
    by (simp add: takeWhile_append2 list_all_iff semicolon_not_mime)
  ultimately show ?thesis by simp
qed

lemma shape_unique:
  assumes "data_uri_shape s m p" "data_uri_shape s m' p'"
  shows "m = m' \<and> p = p'"
proof -
  from shape_mime [OF assms(1)] shape_mime [OF assms(2)] have "m = m'" by simp
  moreover from assms have "ascii ''data:'' @ m @ ascii '';base64,'' @ p =
     ascii ''data:'' @ m' @ ascii '';base64,'' @ p'" by (simp add: data_uri_shape_def)
  ultimately show ?thesis by simp
qed

lemma find_SomeD: "find P xs = Some x \<Longrightarrow> x \<in> set xs \<and> P x"
  by (induction xs) (auto split: if_splits)

lemma match_anchored_Some:
  assumes "match_anchored data_uri_regex s = Some a"
  shows "\<exists>m p. a = [s, m, p] \<and> data_uri_shape s m p"
proof -
  from assms obtain caps m rest where
    f: "find (\<lambda>(caps, m, rest). rest = []) (backtrack data_uri_regex s) = Some (caps, m, rest)"
    and a: "a = m # caps"
    by (auto simp: match_anchored_def)
  from f have "(caps, m, rest) \<in> set (backtrack data_uri_regex s)" and "rest = []"
    by (auto dest: find_SomeD)
  then have "s = m" and "matches data_uri_regex caps m"
    by (simp_all add: backtrack_iff)
  with a show ?thesis by (auto simp: matches_data_uri)
qed

lemma match_anchored_shape:
  assumes "data_uri_shape s m p"
  shows "match_anchored data_uri_regex s = Some [s, m, p]"
proof -
  from assms have "matches data_uri_regex [m, p] s" by (simp add: matches_data_uri)
  then have "([m, p], s, []) \<in> set (backtrack data_uri_regex s)" by (simp add: backtrack_iff)
  then have "find (\<lambda>(caps, m, rest). rest = []) (backtrack data_uri_regex s) \<noteq> None"
    by (auto simp: find_None_iff)
  then obtain a where a: "match_anchored data_uri_regex s = Some a"
    by (auto simp: match_anchored_def)
  then obtain m' p' where "a = [s, m', p']" "data_uri_shape s m' p'"
    using match_anchored_Some by blast
  with assms a show ?thesis using shape_unique by blast
qed

lemma decode_shape:
  "data_uri_shape s m p \<Longrightarrow> decodeBase64Image s = (Some m, Some p)"
  by (simp add: decodeBase64Image_def match_anchored_shape opt_index_def)

lemma decode_cases:
  "(\<exists>m p. data_uri_shape s m p \<and> decodeBase64Image s = (Some m, Some p)) \<or>
   ((\<forall>m p. \<not> data_uri_shape s m p) \<and> decodeBase64Image s = (None, None))"
proof (cases "match_anchored data_uri_regex s")
  case None
  then have "\<forall>m p. \<not> data_uri_shape s m p"
    using match_anchored_shape by fastforce
  with None show ?thesis by (simp add: decodeBase64Image_def opt_index_def)
next
  case (Some a)
  then obtain m p where "a = [s, m, p]" "data_uri_shape s m p"
    using match_anchored_Some by blast
  then show ?thesis using decode_shape by blast
qed

lemma decode_Some_iff:
  "decodeBase64Image s = (Some m, Some p) \<longleftrightarrow> data_uri_shape s m p"
proof
  assume d: "decodeBase64Image s = (Some m, Some p)"
  from decode_cases [of s] show "data_uri_shape s m p"
  proof
    assume "\<exists>m p. data_uri_shape s m p \<and> decodeBase64Image s = (Some m, Some p)"
    then obtain m' p' where "data_uri_shape s m' p'" "decodeBase64Image s = (Some m', Some p')"
      by blast
    with d show ?thesis by simp
  next
    assume "(\<forall>m p. \<not> data_uri_shape s m p) \<and> decodeBase64Image s = (None, None)"
    with d show ?thesis by simp
  qed
next
  assume "data_uri_shape s m p"
  then show "decodeBase64Image s = (Some m, Some p)" by (rule decode_shape)
qed

section \<open>Auxiliary facts\<close>

lemma takeWhile_upto: "x \<notin> set a \<Longrightarrow> takeWhile (\<lambda>c. c \<noteq> x) (a @ x # r) = a"
  by (induction a) auto

lemma dropWhile_upto: "x \<notin> set a \<Longrightarrow> dropWhile (\<lambda>c. c \<noteq> x) (a @ x # r) = x # r"
  by (induction a) auto

lemma split_none: "sep \<notin> set a \<Longrightarrow> split sep a = [a]"
proof -
  assume "sep \<notin> set a"
  then have d: "dropWhile (\<lambda>c. c \<noteq> sep) a = []" by auto
  show ?thesis by (subst split.simps) (simp only: d list.case)
qed

lemma split_first: "sep \<notin> set a \<Longrightarrow> split sep (a @ sep # r) = a # split sep r"
  by (subst split.simps) (simp add: takeWhile_upto dropWhile_upto)

lemma unique_cut:
  assumes "x \<notin> set a" "x \<notin> set a'" "a @ x # r = a' @ x # r'"
  shows "a = a' \<and> r = r'"
proof -
  have "a = takeWhile (\<lambda>c. c \<noteq> x) (a @ x # r)" using assms(1) by (simp add: takeWhile_upto)
  also have "\<dots> = takeWhile (\<lambda>c. c \<noteq> x) (a' @ x # r')" by (simp only: assms(3))
  also have "\<dots> = a'" using assms(2) by (simp add: takeWhile_upto)
  finally have "a = a'" .
  with assms(3) show ?thesis by simp
qed


lemma decode_nonempty:
  "decodeBase64Image s = (Some m, Some p) \<Longrightarrow> m \<noteq> [] \<and> p \<noteq> []"
  by (simp add: decode_Some_iff data_uri_shape_def)

lemma decode_all_or_nothing:
  "fst (decodeBase64Image s) = None \<or> snd (decodeBase64Image s) = None \<Longrightarrow>
   decodeBase64Image s = (None, None)"
  using decode_cases [of s] by auto

lemma match_None_decode:
  "match_anchored data_uri_regex s = None \<Longrightarrow> decodeBase64Image s = (None, None)"
  by (simp add: decodeBase64Image_def opt_index_def)

lemma POST_within_limit_None:
  "length prompt \<le> 6464471 \<Longrightarrow> decodeBase64Image prompt = (None, None) \<Longrightarrow>
   POST streamText toAIStream prompt = (Inr (Response ''Invalid image data'' 400), [])"
  by (simp add: POST_def)

lemma supported_set:
  "isSupportedImageType t \<longleftrightarrow>
     t \<in> {ascii ''image/jpeg'', ascii ''image/png'', ascii ''image/gif'', ascii ''image/webp''}"
  by (simp add: isSupportedImageType_def)

lemma POST_within_limit_Some:
  assumes "length prompt \<le> 6464471" "decodeBase64Image prompt = (Some mimeType, Some img)"
  shows "POST streamText toAIStream prompt =
     (if \<not> isSupportedImageType mimeType
      then (Inr (Response
        ''Unsupported format. Only JPEG, PNG, GIF, and WEBP files are supported.'' 400), [])
      else
        (let call = \<lparr>messages =
                       [\<lparr>role = User,
                         content = [TextPart (ascii prompt_task), ImagePart img mimeType]\<rparr>,
                        \<lparr>role = Assistant, content = [TextPart [sentinel]]\<rparr>],
                     model = ''models/gemini-1.5-pro-latest''\<rparr>
         in case streamText call of
              Inl e \<Rightarrow> (Inl e, [call])
            | Inr result \<Rightarrow> (Inr (StreamingTextResponse (toAIStream result)), [call])))"
proof -
  from assms(2) have "mimeType \<noteq> []" "img \<noteq> []" by (simp_all add: decode_nonempty)
  with assms show ?thesis by (simp add: POST_def)
qed

lemma decode_bmp:
  "decodeBase64Image (ascii ''data:image/bmp;base64,AAAA'') =
     (Some (ascii ''image/bmp''), Some (ascii ''AAAA''))"
  by (rule decode_shape) (simp add: data_uri_shape_def ascii_def mime_class_def dot_def)

lemma decode_png:
  "decodeBase64Image (ascii ''data:image/png;base64,iVBORw0KGgo='') =
     (Some (ascii ''image/png''), Some (ascii ''iVBORw0KGgo=''))"
  by (rule decode_shape) (simp add: data_uri_shape_def ascii_def mime_class_def dot_def)

lemma match_not_a_data_uri: "match_anchored data_uri_regex (ascii ''not-a-data-uri'') = None"
  by (simp add: match_anchored_def data_uri_regex_def ascii_def)

lemma oversize_bmp_length:
  "length (ascii ''data:image/bmp;base64,'' @ replicate 7000000 (0x41 :: code_unit)) > 6464471"
  by (simp add: ascii_def)

lemma match_bmp:
  "match_anchored data_uri_regex (ascii ''data:image/bmp;base64,AAAA'') =
     Some [ascii ''data:image/bmp;base64,AAAA'', ascii ''image/bmp'', ascii ''AAAA'']"
  by (rule match_anchored_shape)
    (simp add: data_uri_shape_def ascii_def mime_class_def dot_def)

lemma match_png:
  "match_anchored data_uri_regex (ascii ''data:image/png;base64,iVBORw0KGgo='') =
     Some [ascii ''data:image/png;base64,iVBORw0KGgo='', ascii ''image/png'',
           ascii ''iVBORw0KGgo='']"
  by (rule match_anchored_shape)
    (simp add: data_uri_shape_def ascii_def mime_class_def dot_def)

lemma bmp_unsupported: "\<not> isSupportedImageType (ascii ''image/bmp'')"
  by (simp add: isSupportedImageType_def ascii_def)

lemma png_supported: "isSupportedImageType (ascii ''image/png'')"
  by (simp add: isSupportedImageType_def)

lemma index_simps:
  "index (x # xs) 0 = Some x" "index [x] (Suc 0) = None" "index (x # y # ys) (Suc 0) = Some y"
  by (simp_all add: index_def)

lemma sentinel_not_ascii: "sentinel \<notin> set (ascii ''a'')" "sentinel \<notin> set (ascii ''b'')"
  by (simp_all add: sentinel_def ascii_def)

lemma digits_not_mime: "(0x30 \<le> c \<and> c \<le> 0x39) \<or> c = 0x2E \<Longrightarrow> \<not> mime_class c"
  unfolding mime_class_def by (auto simp: word_le_nat_alt)

lemma shape_of_parts:
  assumes "data_uri_shape (ascii ''data:'' @ m @ ascii '';base64,'' @ p) m' p'"
    and "0x3B \<notin> set m"
  shows "m' = m \<and> p' = p"
proof -
  from assms(1) have eq: "ascii ''data:'' @ m @ ascii '';base64,'' @ p =
      ascii ''data:'' @ m' @ ascii '';base64,'' @ p'"
    and cls: "list_all mime_class m'"
    by (simp_all add: data_uri_shape_def)
  from cls have "0x3B \<notin> set m'"
    using semicolon_not_mime by (auto simp: list_all_iff)
  moreover from eq have "m @ 0x3B # (ascii ''base64,'' @ p) = m' @ 0x3B # (ascii ''base64,'' @ p')"
    by (simp add: ascii_base64)
  ultimately have "m = m' \<and> ascii ''base64,'' @ p = ascii ''base64,'' @ p'"
    using assms(2) by (intro unique_cut)
  then show ?thesis by simp
qed

section \<open>The size limit\<close>

text \<open>
  C1. A prompt string longer than 6,464,471 code units is answered with status 400 and
  the body "Image too large, maximum file size is 4.5MB.", and the model is not called.
\<close>

theorem POST_oversize:
  "length prompt > 6464471 \<Longrightarrow>
     POST streamText toAIStream prompt =
       (Inr (Response ''Image too large, maximum file size is 4.5MB.'' 400), [])"
  by (simp add: POST_def)

theorem POST_oversize_witness:
  "length (replicate 6464472 (0x41 :: code_unit)) > 6464471 \<and>
   POST (\<lambda>c. Inr []) tagged_stream (replicate 6464472 0x41) =
     (Inr (Response ''Image too large, maximum file size is 4.5MB.'' 400), [])"
  using POST_oversize [of "replicate 6464472 0x41" "\<lambda>c. Inr []" tagged_stream] by simp

section \<open>Malformed data\<close>

text \<open>
  C2. A prompt string within the size limit that the pattern does not match, so that no
  MIME type or no payload is captured, is answered with status 400 and the body
  "Invalid image data", and the model is not called.
\<close>

theorem POST_invalid:
  assumes "length prompt \<le> 6464471"
    and "match_anchored data_uri_regex prompt = None \<or>
         fst (decodeBase64Image prompt) = None \<or> snd (decodeBase64Image prompt) = None"
  shows "POST streamText toAIStream prompt = (Inr (Response ''Invalid image data'' 400), [])"
proof -
  from assms(2) have "decodeBase64Image prompt = (None, None)"
    using match_None_decode decode_all_or_nothing by blast
  with assms(1) show ?thesis by (rule POST_within_limit_None)
qed

theorem POST_invalid_witness:
  "length (ascii ''not-a-data-uri'') \<le> 6464471 \<and>
   match_anchored data_uri_regex (ascii ''not-a-data-uri'') = None \<and>
   POST (\<lambda>c. Inr []) tagged_stream (ascii ''not-a-data-uri'') =
     (Inr (Response ''Invalid image data'' 400), [])"
proof -
  have l: "length (ascii ''not-a-data-uri'') \<le> 6464471" by (simp add: ascii_def)
  from POST_invalid [OF l disjI1 [OF match_not_a_data_uri]] l match_not_a_data_uri
  show ?thesis by simp
qed

section \<open>Unsupported formats\<close>

text \<open>
  C3. A prompt string within the size limit that the pattern matches, with a captured
  MIME type outside image/jpeg, image/png, image/gif and image/webp, is answered with
  status 400 and the body "Unsupported format. Only JPEG, PNG, GIF, and WEBP files are
  supported.", and the model is not called.
\<close>

theorem POST_unsupported:
  assumes "length prompt \<le> 6464471"
    and "decodeBase64Image prompt = (Some mimeType, Some img)"
    and "mimeType \<notin> {ascii ''image/jpeg'', ascii ''image/png'', ascii ''image/gif'',
           ascii ''image/webp''}"
  shows "POST streamText toAIStream prompt =
     (Inr (Response
        ''Unsupported format. Only JPEG, PNG, GIF, and WEBP files are supported.'' 400), [])"
proof -
  from assms(3) have "\<not> isSupportedImageType mimeType" by (simp add: supported_set)
  with POST_within_limit_Some [OF assms(1,2)] show ?thesis by simp
qed

theorem POST_unsupported_witness:
  "length (ascii ''data:image/bmp;base64,AAAA'') \<le> 6464471 \<and>
   decodeBase64Image (ascii ''data:image/bmp;base64,AAAA'') =
     (Some (ascii ''image/bmp''), Some (ascii ''AAAA'')) \<and>
   ascii ''image/bmp'' \<notin> {ascii ''image/jpeg'', ascii ''image/png'', ascii ''image/gif'',
      ascii ''image/webp''} \<and>
   POST (\<lambda>c. Inr []) tagged_stream (ascii ''data:image/bmp;base64,AAAA'') =
     (Inr (Response
        ''Unsupported format. Only JPEG, PNG, GIF, and WEBP files are supported.'' 400), [])"
proof -
  have l: "length (ascii ''data:image/bmp;base64,AAAA'') \<le> 6464471" by (simp add: ascii_def)
  have n: "ascii ''image/bmp'' \<notin> {ascii ''image/jpeg'', ascii ''image/png'',
      ascii ''image/gif'', ascii ''image/webp''}" by (simp add: ascii_def)
  from POST_unsupported [OF l decode_bmp n] l decode_bmp n show ?thesis by simp
qed


section \<open>The order of the checks\<close>

text \<open>
  C4. The checks run in the order size limit, data-URI parse, MIME allow-list, and the
  first one that fails decides the response and ends the request without a model call.
  In particular a prompt longer than 6,464,471 code units gets the oversize response
  whatever the parse and the allow-list would say of it, and neither of the later
  errors; only a prompt that passes all three reaches the model.
\<close>

theorem POST_validation_order:
  "(length prompt > 6464471 \<longrightarrow>
      POST streamText toAIStream prompt =
        (Inr (Response ''Image too large, maximum file size is 4.5MB.'' 400), []) \<and>
      fst (POST streamText toAIStream prompt) \<noteq> Inr (Response ''Invalid image data'' 400) \<and>
      fst (POST streamText toAIStream prompt) \<noteq> Inr (Response
        ''Unsupported format. Only JPEG, PNG, GIF, and WEBP files are supported.'' 400)) \<and>
   (length prompt \<le> 6464471 \<and> match_anchored data_uri_regex prompt = None \<longrightarrow>
      POST streamText toAIStream prompt = (Inr (Response ''Invalid image data'' 400), [])) \<and>
   (length prompt \<le> 6464471 \<and> match_anchored data_uri_regex prompt = Some [w, mimeType, img] \<and>
    \<not> isSupportedImageType mimeType \<longrightarrow>
      POST streamText toAIStream prompt =
        (Inr (Response
           ''Unsupported format. Only JPEG, PNG, GIF, and WEBP files are supported.'' 400), [])) \<and>
   (length prompt \<le> 6464471 \<and> match_anchored data_uri_regex prompt = Some [w, mimeType, img] \<and>
    isSupportedImageType mimeType \<longrightarrow>
      length (snd (POST streamText toAIStream prompt)) = 1)"
proof (intro conjI impI)
  assume "length prompt > 6464471"
  then show "POST streamText toAIStream prompt =
      (Inr (Response ''Image too large, maximum file size is 4.5MB.'' 400), [])"
    by (simp add: POST_def)
  then show "fst (POST streamText toAIStream prompt) \<noteq> Inr (Response ''Invalid image data'' 400)"
    and "fst (POST streamText toAIStream prompt) \<noteq> Inr (Response
        ''Unsupported format. Only JPEG, PNG, GIF, and WEBP files are supported.'' 400)"
    by simp_all
next
  assume "length prompt \<le> 6464471 \<and> match_anchored data_uri_regex prompt = None"
  then show "POST streamText toAIStream prompt = (Inr (Response ''Invalid image data'' 400), [])"
    by (simp add: match_None_decode POST_within_limit_None)
next
  assume a: "length prompt \<le> 6464471 \<and>
    match_anchored data_uri_regex prompt = Some [w, mimeType, img] \<and>
    \<not> isSupportedImageType mimeType"
  then have "decodeBase64Image prompt = (Some mimeType, Some img)"
    by (simp add: decodeBase64Image_def opt_index_def)
  with a show "POST streamText toAIStream prompt =
        (Inr (Response
           ''Unsupported format. Only JPEG, PNG, GIF, and WEBP files are supported.'' 400), [])"
    by (simp add: POST_within_limit_Some)
next
  assume a: "length prompt \<le> 6464471 \<and>
    match_anchored data_uri_regex prompt = Some [w, mimeType, img] \<and>
    isSupportedImageType mimeType"
  then have "decodeBase64Image prompt = (Some mimeType, Some img)"
    by (simp add: decodeBase64Image_def opt_index_def)
  with a show "length (snd (POST streamText toAIStream prompt)) = 1"
    by (simp add: POST_within_limit_Some Let_def split: sum.split)
qed


theorem POST_validation_order_witness:
  "POST (\<lambda>c. Inr []) tagged_stream (replicate 7000000 0x41) =
     (Inr (Response ''Image too large, maximum file size is 4.5MB.'' 400), []) \<and>
   POST (\<lambda>c. Inr []) tagged_stream (ascii ''data:image/bmp;base64,'' @ replicate 7000000 0x41) =
     (Inr (Response ''Image too large, maximum file size is 4.5MB.'' 400), []) \<and>
   POST (\<lambda>c. Inr []) tagged_stream (ascii ''not-a-data-uri'') =
     (Inr (Response ''Invalid image data'' 400), []) \<and>
   POST (\<lambda>c. Inr []) tagged_stream (ascii ''data:image/bmp;base64,AAAA'') =
     (Inr (Response
        ''Unsupported format. Only JPEG, PNG, GIF, and WEBP files are supported.'' 400), []) \<and>
   length (snd (POST (\<lambda>c. Inr []) tagged_stream (ascii ''data:image/png;base64,iVBORw0KGgo=''))) = 1"
proof -
  have 1: "length (replicate 7000000 (0x41 :: code_unit)) > 6464471" by simp
  have 3: "length (ascii ''not-a-data-uri'') \<le> 6464471" by (simp add: ascii_def)
  have 4: "length (ascii ''data:image/bmp;base64,AAAA'') \<le> 6464471" by (simp add: ascii_def)
  have 5: "length (ascii ''data:image/png;base64,iVBORw0KGgo='') \<le> 6464471"
    by (simp add: ascii_def)
  from POST_validation_order [of "replicate 7000000 0x41" "\<lambda>c. Inr []" tagged_stream] 1
  have "POST (\<lambda>c. Inr []) tagged_stream (replicate 7000000 0x41) =
     (Inr (Response ''Image too large, maximum file size is 4.5MB.'' 400), [])" by blast
  moreover
  from POST_validation_order
    [of "ascii ''data:image/bmp;base64,'' @ replicate 7000000 0x41" "\<lambda>c. Inr []" tagged_stream]
    oversize_bmp_length
  have "POST (\<lambda>c. Inr []) tagged_stream (ascii ''data:image/bmp;base64,'' @ replicate 7000000 0x41) =
     (Inr (Response ''Image too large, maximum file size is 4.5MB.'' 400), [])" by blast
  moreover
  from POST_validation_order [of "ascii ''not-a-data-uri''" "\<lambda>c. Inr []" tagged_stream] 3
    match_not_a_data_uri
  have "POST (\<lambda>c. Inr []) tagged_stream (ascii ''not-a-data-uri'') =
     (Inr (Response ''Invalid image data'' 400), [])" by blast
  moreover
  from POST_validation_order [of "ascii ''data:image/bmp;base64,AAAA''" "\<lambda>c. Inr []" tagged_stream
      "ascii ''data:image/bmp;base64,AAAA''" "ascii ''image/bmp''" "ascii ''AAAA''"]
    4 match_bmp bmp_unsupported
  have "POST (\<lambda>c. Inr []) tagged_stream (ascii ''data:image/bmp;base64,AAAA'') =
     (Inr (Response
        ''Unsupported format. Only JPEG, PNG, GIF, and WEBP files are supported.'' 400), [])"
    by blast
  moreover
  from POST_validation_order [of "ascii ''data:image/png;base64,iVBORw0KGgo=''" "\<lambda>c. Inr []" tagged_stream
      "ascii ''data:image/png;base64,iVBORw0KGgo=''" "ascii ''image/png''"
      "ascii ''iVBORw0KGgo=''"]
    5 match_png png_supported
  have "length (snd (POST (\<lambda>c. Inr []) tagged_stream (ascii ''data:image/png;base64,iVBORw0KGgo=''))) = 1"
    by blast
  ultimately show ?thesis by blast
qed

section \<open>Valid requests\<close>







section \<open>Splitting the response\<close>

text \<open>
  C7, as the code has it. The split and the destructuring are total: the description is
  always the text before the first sentinel (the whole string when there is none, and
  then the text is undefined). A string with exactly one sentinel splits into exactly
  two segments, the description and the text. With more than one sentinel the text is
  only the segment between the first and the second sentinel; whatever follows the
  second sentinel is not displayed.
\<close>

theorem displayed_segments:
  assumes "sentinel \<notin> set a" and "sentinel \<notin> set b"
  shows "displayed a = (Some a, None) \<and>
         split sentinel (a @ sentinel # b) = [a, b] \<and>
         displayed (a @ sentinel # b) = (Some a, Some b) \<and>
         displayed (a @ sentinel # b @ sentinel # c) = (Some a, Some b)"
proof -
  from assms have 1: "split sentinel a = [a]" and 2: "split sentinel (a @ sentinel # b) = [a, b]"
    and 3: "split sentinel (a @ sentinel # b @ sentinel # c) = a # b # split sentinel c"
    by (simp_all add: split_none split_first)
  show ?thesis by (simp add: displayed_def 1 2 3 index_simps)
qed

theorem displayed_segments_witness:
  "sentinel \<notin> set (ascii ''a'') \<and> sentinel \<notin> set (ascii ''b'') \<and>
   displayed (ascii ''a'') = (Some (ascii ''a''), None) \<and>
   displayed (ascii ''a'' @ sentinel # ascii ''b'') = (Some (ascii ''a''), Some (ascii ''b'')) \<and>
   displayed (ascii ''a'' @ sentinel # ascii ''b'' @ sentinel # ascii ''c'') =
     (Some (ascii ''a''), Some (ascii ''b''))"
  using displayed_segments [OF sentinel_not_ascii, of "ascii ''c''"] sentinel_not_ascii
  by simp

text \<open>
  The third segment of a response with two sentinels is in neither displayed section.
\<close>

theorem displayed_drops_third_segment:
  "displayed (ascii ''a'' @ sentinel # ascii ''b'' @ sentinel # ascii ''c'') =
     (Some (ascii ''a''), Some (ascii ''b'')) \<and>
   0x63 \<notin> set (ascii ''a'') \<union> set (ascii ''b'')"
proof -
  have "split sentinel (ascii ''a'' @ sentinel # ascii ''b'' @ sentinel # ascii ''c'') =
      ascii ''a'' # ascii ''b'' # split sentinel (ascii ''c'')"
    by (simp add: split_first sentinel_not_ascii)
  then show ?thesis by (simp add: displayed_def index_simps ascii_def)
qed

section \<open>Client-side validation\<close>

text \<open>
  C8. A file whose type is outside image/jpeg, image/png, image/gif and image/webp, or
  whose size exceeds 4.5 * 1024 * 1024 bytes, or whose data URL is longer than 6,464,471
  code units, makes \<open>submit\<close> show one error toast and leave the list of requests as it
  was: nothing is sent to the relay.
\<close>

theorem submit_rejects:
  assumes "file_type f \<notin> {ascii ''image/jpeg'', ascii ''image/png'', ascii ''image/gif'',
              ascii ''image/webp''} \<or>
           real (file_size f) > 4.5 * 1024 * 1024 \<or>
           (\<exists>base64. toBase64 env f = Resolved base64 \<and> length base64 > 6464471)"
  shows "(\<exists>msg. submit env (Some f) st = (Resolved (), st\<lparr>toasts := toasts st @ [msg]\<rparr>)) \<and>
         requests (snd (submit env (Some f) st)) = requests st"
proof (cases "\<not> isSupportedImageType (file_type f) \<or> real (file_size f) > 4.5 * 1024 * 1024")
  case True
  then show ?thesis by (auto simp: submit_def toast_error_def)
next
  case False
  with assms obtain base64 where "toBase64 env f = Resolved base64" "length base64 > 6464471"
    by (auto simp: supported_set)
  with False show ?thesis by (auto simp: submit_def toast_error_def)
qed

theorem submit_rejects_witness:
  "file_type bmp_file \<notin> {ascii ''image/jpeg'', ascii ''image/png'', ascii ''image/gif'',
      ascii ''image/webp''} \<and>
   real (file_size big_png) > 4.5 * 1024 * 1024 \<and>
   toBase64 long_reader small_png = Resolved (replicate 6464472 0x41) \<and>
   submit long_reader (Some bmp_file) idle =
     (Resolved (), idle\<lparr>toasts :=
        [''Unsupported format. Only JPEG, PNG, GIF, and WEBP files are supported.'']\<rparr>) \<and>
   submit long_reader (Some big_png) idle =
     (Resolved (), idle\<lparr>toasts := [''Image too large, maximum file size is 4.5MB.'']\<rparr>) \<and>
   submit long_reader (Some small_png) idle =
     (Resolved (), idle\<lparr>toasts := [''Image too large, maximum file size is 4.5MB.'']\<rparr>) \<and>
   requests (snd (submit long_reader (Some bmp_file) idle)) = [] \<and>
   requests (snd (submit long_reader (Some big_png) idle)) = [] \<and>
   requests (snd (submit long_reader (Some small_png) idle)) = []"
proof -
  have 1: "file_type bmp_file \<notin> {ascii ''image/jpeg'', ascii ''image/png'', ascii ''image/gif'',
      ascii ''image/webp''}" by (simp add: bmp_file_def ascii_def)
  have 2: "real (file_size big_png) > 4.5 * 1024 * 1024" by (simp add: big_png_def)
  have 3: "toBase64 long_reader small_png = Resolved (replicate 6464472 0x41)"
    by (simp add: toBase64_def long_reader_def)
  then have ex3: "\<exists>base64. toBase64 long_reader small_png = Resolved base64 \<and>
      length base64 > 6464471" by simp
  have e: "submit long_reader (Some bmp_file) idle =
     (Resolved (), idle\<lparr>toasts :=
        [''Unsupported format. Only JPEG, PNG, GIF, and WEBP files are supported.'']\<rparr>)"
    "submit long_reader (Some big_png) idle =
     (Resolved (), idle\<lparr>toasts := [''Image too large, maximum file size is 4.5MB.'']\<rparr>)"
    "submit long_reader (Some small_png) idle =
     (Resolved (), idle\<lparr>toasts := [''Image too large, maximum file size is 4.5MB.'']\<rparr>)"
    using 1 3 by (simp_all add: submit_def supported_set toast_error_def idle_def
        bmp_file_def big_png_def small_png_def isSupportedImageType_def)
  from submit_rejects [OF disjI1 [OF 1], of long_reader idle]
    submit_rejects [OF disjI2 [OF disjI1 [OF 2]], of long_reader idle]
    submit_rejects [OF disjI2 [OF disjI2 [OF ex3]], of idle]
    1 2 3 e
  show ?thesis by (simp add: idle_def)
qed

section \<open>Characters the pattern excludes\<close>

text \<open>
  C9, as the code has it. The class of the MIME group has neither the digits nor the
  full stop, and the payload group does not match a line feed, so whatever the parser
  captures is a MIME type over the class and a payload without line terminators.
  Therefore a data-URI within the size limit, \<open>data:\<close> then a MIME type (the text up to
  the first semicolon) then \<open>;base64,\<close> then a payload, whose MIME type has a code
  unit outside the class or whose payload has a line terminator, is answered with
  "Invalid image data", not with the unsupported-format response.
\<close>

theorem POST_excluded_characters:
  "((0x30 \<le> c \<and> c \<le> 0x39) \<or> c = 0x2E \<longrightarrow> \<not> mime_class c) \<and> \<not> dot 0x0A \<and>
   (decodeBase64Image s = (Some mimeType, Some img) \<longrightarrow>
      (\<forall>c\<in>set mimeType. mime_class c) \<and> (\<forall>c\<in>set img. dot c)) \<and>
   (length (ascii ''data:'' @ m @ ascii '';base64,'' @ p) \<le> 6464471 \<and> 0x3B \<notin> set m \<and>
    ((\<exists>c\<in>set m. \<not> mime_class c) \<or> (\<exists>c\<in>set p. \<not> dot c)) \<longrightarrow>
      POST streamText toAIStream (ascii ''data:'' @ m @ ascii '';base64,'' @ p) =
        (Inr (Response ''Invalid image data'' 400), []))"
proof (intro conjI impI)
  assume "(0x30 \<le> c \<and> c \<le> 0x39) \<or> c = 0x2E"
  then show "\<not> mime_class c" by (rule digits_not_mime)
next
  show "\<not> dot 0x0A" by (simp add: dot_def)
next
  assume "decodeBase64Image s = (Some mimeType, Some img)"
  then have "data_uri_shape s mimeType img" by (simp add: decode_Some_iff)
  then show "\<forall>c\<in>set mimeType. mime_class c" and "\<forall>c\<in>set img. dot c"
    by (simp_all add: data_uri_shape_def list_all_iff)
next
  let ?s = "ascii ''data:'' @ m @ ascii '';base64,'' @ p"
  assume a: "length ?s \<le> 6464471 \<and> 0x3B \<notin> set m \<and>
    ((\<exists>c\<in>set m. \<not> mime_class c) \<or> (\<exists>c\<in>set p. \<not> dot c))"
  have "\<not> data_uri_shape ?s m' p'" for m' p'
  proof
    assume sh: "data_uri_shape ?s m' p'"
    with a have "m' = m \<and> p' = p" by (intro shape_of_parts) simp_all
    with sh have "list_all mime_class m" "list_all dot p"
      by (simp_all add: data_uri_shape_def)
    with a show False by (auto simp: list_all_iff)
  qed
  with decode_cases [of ?s] have "decodeBase64Image ?s = (None, None)" by blast
  with a show "POST streamText toAIStream ?s = (Inr (Response ''Invalid image data'' 400), [])"
    by (simp add: POST_within_limit_None)
qed

theorem POST_excluded_characters_witness:
  "POST (\<lambda>c. Inr []) tagged_stream (ascii ''data:'' @ ascii ''image/x-icon2'' @ ascii '';base64,'' @ ascii ''AAAA'') =
     (Inr (Response ''Invalid image data'' 400), []) \<and>
   POST (\<lambda>c. Inr []) tagged_stream (ascii ''data:'' @ ascii ''image/png'' @ ascii '';base64,'' @
       (ascii ''AA'' @ [0x0A] @ ascii ''BB'')) =
     (Inr (Response ''Invalid image data'' 400), []) \<and>
   \<not> mime_class 0x32 \<and>
   decodeBase64Image (ascii ''data:image/png;base64,iVBORw0KGgo='') =
     (Some (ascii ''image/png''), Some (ascii ''iVBORw0KGgo='')) \<and>
   list_all mime_class (ascii ''image/png'') \<and> list_all dot (ascii ''iVBORw0KGgo='')"
proof -
  have d: "\<exists>c\<in>set (ascii ''image/x-icon2''). \<not> mime_class c"
    by (simp add: ascii_def mime_class_def)
  have n: "\<exists>c\<in>set (ascii ''AA'' @ [0x0A] @ ascii ''BB''). \<not> dot c"
    by (simp add: dot_def)
  have l1: "length (ascii ''data:'' @ ascii ''image/x-icon2'' @ ascii '';base64,'' @ ascii ''AAAA'')
      \<le> 6464471" by (simp add: ascii_def)
  have l2: "length (ascii ''data:'' @ ascii ''image/png'' @ ascii '';base64,'' @
       (ascii ''AA'' @ [0x0A] @ ascii ''BB'')) \<le> 6464471" by (simp add: ascii_def)
  have s1: "0x3B \<notin> set (ascii ''image/x-icon2'')" and s2: "0x3B \<notin> set (ascii ''image/png'')"
    by (simp_all add: ascii_def)
  from POST_excluded_characters [where c = "0x32"
      and s = "ascii ''data:image/png;base64,iVBORw0KGgo=''"
      and mimeType = "ascii ''image/png''" and img = "ascii ''iVBORw0KGgo=''"
      and m = "ascii ''image/x-icon2''" and p = "ascii ''AAAA''"
      and streamText = "\<lambda>c. Inr []" and toAIStream = tagged_stream]
    POST_excluded_characters [where c = "0x32"
      and s = "ascii ''data:image/png;base64,iVBORw0KGgo=''"
      and mimeType = "ascii ''image/png''" and img = "ascii ''iVBORw0KGgo=''"
      and m = "ascii ''image/png''" and p = "ascii ''AA'' @ [0x0A] @ ascii ''BB''"
      and streamText = "\<lambda>c. Inr []" and toAIStream = tagged_stream]
    d n l1 l2 s1 s2 decode_png
  show ?thesis by (simp add: list_all_iff)
qed

text \<open>
  Beyond the size limit the same data-URI gets the oversize response instead.
\<close>

theorem oversize_data_uri_with_digit:
  "fst (POST silent_model tagged_stream
     (ascii ''data:'' @ ascii ''image/x-icon2'' @ ascii '';base64,'' @ replicate 7000000 0x41)) =
     Inr (Response ''Image too large, maximum file size is 4.5MB.'' 400) \<and>
   fst (POST silent_model tagged_stream
     (ascii ''data:'' @ ascii ''image/x-icon2'' @ ascii '';base64,'' @ replicate 7000000 0x41)) \<noteq>
     Inr (Response ''Invalid image data'' 400)"
  by (simp add: POST_def)


section \<open>Submitting nothing\<close>

text \<open>
  C10. \<open>submit\<close> without a file returns at once and changes nothing: no toast, no
  change of the blob URL or the finished flag, no request. So do the paste and
  file-picker handlers for an event without a file; the drop handler only clears its
  own dragging flag.
\<close>

theorem submit_no_file:
  "submit env None st = (Resolved (), st) \<and>
   handlePaste env None st = (Resolved (), st) \<and>
   handlePaste env (Some []) st = (Resolved (), st) \<and>
   handleInputChange env None st = (Resolved (), st) \<and>
   handleInputChange env (Some []) st = (Resolved (), st) \<and>
   handleDrop env None st = (Resolved (), st\<lparr>isDraggingOver := False\<rparr>) \<and>
   handleDrop env (Some []) st = (Resolved (), st\<lparr>isDraggingOver := False\<rparr>)"
  by (simp add: submit_def handlePaste_def handleInputChange_def handleDrop_def
      first_file_def opt_index_def)

end
